theory Spec2Isabelle
  imports Complex_Main "HOL-Library.Word"
begin

section \<open>Data model of Sensor.cpp\<close>

text \<open>
  The sketch targets the Arduino Uno, whose C \<open>int\<close> has 16 bits: every \<open>int\<close> of the
  source is a \<open>16 word\<close>, read as two's complement by \<open>sint\<close> where its sign matters
  (printing). \<open>LOW\<close> and \<open>HIGH\<close> are the Arduino constants 0 and 1.
\<close>

abbreviation LOW :: "16 word" where "LOW \<equiv> 0"
abbreviation HIGH :: "16 word" where "HIGH \<equiv> 1"

text \<open>
  Modelled from the spec: the field types of \<open>struct SensorData\<close>, declared in Sensor.h,
  which is not among the sources. The spec gives an integer id, an integer pin of the
  platform's \<open>int\<close> width and the pull-up flag as an integer.
\<close>

record SensorData =
  snum :: "16 word"
  pin :: "16 word"
  pullUp :: "16 word"

text \<open>
  A node of the linked list. The field \<open>nextSensor\<close> is the list structure itself: the
  registry \<open>firstSensor\<close> is the list of nodes in link order, and \<open>NULL\<close> is the empty
  list. The \<open>float\<close> field \<open>signal\<close> holds the real number the float denotes; the
  arithmetic that computes it is the rounding arithmetic of the section on \<open>check\<close>.
\<close>

record Sensor =
  data :: SensorData
  active :: bool
  signal :: real

text \<open>The two hardware calls of \<open>create\<close>, recorded in call order.\<close>

datatype hw_op = PinModeInput "16 word" | DigitalWrite "16 word" "16 word"

text \<open>
  The state the functions of Sensor.cpp act on: the registry, the characters written to
  \<open>Serial\<close> so far, the hardware calls made so far, and the non-volatile store.

  Modelled from the spec: the store of EEStore.h and EEPROM.h, which are not among the
  sources. It is a region addressed by a cursor (\<open>EEStore::pointer()\<close>, moved by
  \<open>EEStore::advance\<close>), holding one record at each address a record was put at, and a
  record count \<open>nSensors\<close> in its header.
\<close>

record world =
  firstSensor :: "Sensor list"
  serial :: string
  hw :: "hw_op list"
  eeprom :: "nat \<Rightarrow> SensorData"
  pointer :: nat
  nSensors :: nat

section \<open>Serial output of an int\<close>

text \<open>\<open>Serial.print(int)\<close> writes the decimal digits, a minus sign first when negative.\<close>

fun digits :: "nat \<Rightarrow> string" where
  "digits n =
     (if n < 10 then [''0123456789'' ! n]
      else digits (n div 10) @ [''0123456789'' ! (n mod 10)])"

declare digits.simps [simp del]

definition print_int :: "16 word \<Rightarrow> string" where
  "print_int x =
     (if sint x < 0 then CHR ''-'' # digits (nat (- sint x)) else digits (nat (sint x)))"

section \<open>Floating-point arithmetic\<close>

text \<open>
  \<open>check\<close> computes in C floating point: every operation rounds its result, and how it
  rounds is decided by the compiler and its float library, not by Sensor.cpp. The model
  takes that arithmetic as the parameter \<open>fa\<close> and assumes nothing about how it rounds;
  each operation of the expression is carried out on its own, as on the AVR, which has
  no fused multiply-add:
  \<^item> \<open>fl_mul\<close>, \<open>fl_add\<close>, \<open>fl_sub\<close> are \<open>*\<close>, \<open>+\<close> and \<open>-\<close> on \<open>double\<close>, the type in which
    the right-hand side of line 56 is evaluated;
  \<^item> \<open>fl_assign\<close> is the conversion from \<open>double\<close> to \<open>float\<close> made by the assignment to
    \<open>signal\<close>;
  \<^item> \<open>lit_0_99\<close> is the number the literal \<open>0.99\<close> denotes, which no binary format holds
    exactly;
  \<^item> \<open>SENSOR_DECAY\<close> is the number the macro of the missing Sensor.h denotes.

  The operations act on the numbers the floats denote. The literals \<open>1.0\<close> and \<open>0.5\<close> and
  the conversion of the 0 or 1 returned by \<open>digitalRead\<close> are exact in every binary
  format, and a comparison of two floats compares the numbers.
\<close>

record farith =
  fl_mul :: "real \<Rightarrow> real \<Rightarrow> real"
  fl_add :: "real \<Rightarrow> real \<Rightarrow> real"
  fl_sub :: "real \<Rightarrow> real \<Rightarrow> real"
  fl_assign :: "real \<Rightarrow> real"
  SENSOR_DECAY :: real
  lit_0_99 :: real

text \<open>
  The arithmetic of the Arduino Uno, where \<open>float\<close> and \<open>double\<close> are both IEEE 754
  binary32: a result is rounded to the nearest number with a 24-bit significand, a tie
  to the one whose last bit is even. \<open>ulp32 x\<close> is the spacing of these numbers around
  \<open>x\<close>, from \<open>2 ^ 104\<close> for the largest down to \<open>1 / 2 ^ 149\<close> for the subnormal ones;
  overflow to infinity is not represented. \<open>binary32 d\<close> is this arithmetic with the
  macro written as the decimal \<open>d\<close>.
\<close>

definition rne :: "real \<Rightarrow> int" where
  "rne y =
     (let n = \<lfloor>y\<rfloor>; r = y - of_int n
      in if r < 1 / 2 then n else if 1 / 2 < r then n + 1 else if even n then n else n + 1)"

fun ulp_down :: "nat \<Rightarrow> real \<Rightarrow> real \<Rightarrow> real" where
  "ulp_down n u x =
     (if n = 0 then u else if x < u * 2 ^ 23 then ulp_down (n - 1) (u / 2) x else u)"

fun ulp_up :: "nat \<Rightarrow> real \<Rightarrow> real \<Rightarrow> real" where
  "ulp_up n u x =
     (if n = 0 then u else if u * 2 ^ 24 \<le> x then ulp_up (n - 1) (u * 2) x else u)"

declare ulp_down.simps [simp del] ulp_up.simps [simp del]

definition ulp32 :: "real \<Rightarrow> real" where
  "ulp32 x =
     (if 2 \<le> \<bar>x\<bar> then ulp_up 127 (1 / 2 ^ 23) \<bar>x\<bar> else ulp_down 126 (1 / 2 ^ 23) \<bar>x\<bar>)"

definition rnd32 :: "real \<Rightarrow> real" where
  "rnd32 x = (if x = 0 then 0 else of_int (rne (x / ulp32 x)) * ulp32 x)"

definition binary32 :: "real \<Rightarrow> farith" where
  "binary32 d =
     \<lparr>fl_mul = (\<lambda>a b. rnd32 (a * b)), fl_add = (\<lambda>a b. rnd32 (a + b)),
      fl_sub = (\<lambda>a b. rnd32 (a - b)), fl_assign = (\<lambda>x. x),
      SENSOR_DECAY = rnd32 d, lit_0_99 = rnd32 (99 / 100)\<rparr>"

text \<open>Arithmetic without rounding, with the macro denoting \<open>d\<close>.\<close>

definition exact :: "real \<Rightarrow> farith" where
  "exact d =
     \<lparr>fl_mul = (*), fl_add = (+), fl_sub = (-), fl_assign = (\<lambda>x. x),
      SENSOR_DECAY = d, lit_0_99 = 99 / 100\<rparr>"

section \<open>Sensor::check\<close>

text \<open>
  \<open>digitalRead\<close> returns \<open>HIGH\<close> or \<open>LOW\<close>; the level of each pin during a tick is the
  environment \<open>pins\<close>.
\<close>

definition digitalRead :: "(16 word \<Rightarrow> bool) \<Rightarrow> 16 word \<Rightarrow> 16 word" where
  "digitalRead pins p = (if pins p then HIGH else LOW)"

text \<open>
  The value line 56 assigns to \<open>signal\<close>:
  \<open>tt->signal*(1.0-SENSOR_DECAY)+digitalRead(tt->data.pin)*SENSOR_DECAY\<close>.
\<close>

definition filtered :: "farith \<Rightarrow> (16 word \<Rightarrow> bool) \<Rightarrow> Sensor \<Rightarrow> real" where
  "filtered fa pins tt =
     fl_assign fa
       (fl_add fa
          (fl_mul fa (signal tt) (fl_sub fa 1 (SENSOR_DECAY fa)))
          (fl_mul fa (real_of_int (sint (digitalRead pins (pin (data tt))))) (SENSOR_DECAY fa)))"

text \<open>The body of the loop of \<open>check\<close> on the node \<open>tt\<close>: the new node and what it prints.\<close>

definition check_step :: "farith \<Rightarrow> (16 word \<Rightarrow> bool) \<Rightarrow> Sensor \<Rightarrow> Sensor \<times> string" where
  "check_step fa pins tt =
     (let tt1 = tt\<lparr>signal := filtered fa pins tt\<rparr>
      in if \<not> active tt1 \<and> signal tt1 < 0.5
         then (tt1\<lparr>active := True\<rparr>, ''<Q'' @ print_int (snum (data tt1)) @ ''>'')
         else if active tt1 \<and> signal tt1 > lit_0_99 fa
         then (tt1\<lparr>active := False\<rparr>, [])
         else (tt1, []))"

fun check_loop :: "farith \<Rightarrow> (16 word \<Rightarrow> bool) \<Rightarrow> Sensor list \<Rightarrow> Sensor list \<times> string" where
  "check_loop fa pins [] = ([], [])"
| "check_loop fa pins (tt # ts) =
     (let (tt', out) = check_step fa pins tt;
          (ts', outs) = check_loop fa pins ts
      in (tt' # ts', out @ outs))"

definition check :: "farith \<Rightarrow> (16 word \<Rightarrow> bool) \<Rightarrow> world \<Rightarrow> world" where
  "check fa pins w =
     (let (reg, out) = check_loop fa pins (firstSensor w)
      in w\<lparr>firstSensor := reg, serial := serial w @ out\<rparr>)"

text \<open>One node ticked \<open>k\<close> times against the same pin levels, with everything it printed.\<close>

fun ticks :: "farith \<Rightarrow> (16 word \<Rightarrow> bool) \<Rightarrow> nat \<Rightarrow> Sensor \<Rightarrow> Sensor \<times> string" where
  "ticks fa pins 0 tt = (tt, [])"
| "ticks fa pins (Suc k) tt =
     (let (tt1, out1) = ticks fa pins k tt;
          (tt2, out2) = check_step fa pins tt1
      in (tt2, out1 @ out2))"

section \<open>Sensor::get, Sensor::create, Sensor::remove\<close>

text \<open>
  A pointer to a node is the position of the node in the list, \<open>NULL\<close> is \<open>None\<close>.
  \<open>get\<close> walks the list to the first node whose \<open>snum\<close> is \<open>n\<close>.
\<close>

fun get :: "16 word \<Rightarrow> Sensor list \<Rightarrow> nat option" where
  "get n [] = None"
| "get n (tt # ts) = (if snum (data tt) \<noteq> n then map_option Suc (get n ts) else Some 0)"

text \<open>\<open>calloc(1, sizeof(Sensor))\<close> on success: a node of zero bytes.\<close>

definition blank :: Sensor where
  "blank = \<lparr>data = \<lparr>snum = 0, pin = 0, pullUp = 0\<rparr>, active = False, signal = 0\<rparr>"

text \<open>
  \<open>create\<close> calls \<open>calloc\<close> at most once; \<open>calloc_ok\<close> says whether that call, if made,
  returns a node. The result is the returned pointer and the new state.
\<close>

definition create ::
  "16 word \<Rightarrow> 16 word \<Rightarrow> 16 word \<Rightarrow> 16 word \<Rightarrow> bool \<Rightarrow> world \<Rightarrow> nat option \<times> world" where
  "create snum' pin' pullUp' v calloc_ok w =
     (let reg = firstSensor w;
          (tt, reg1) =
            (if reg = [] then (if calloc_ok then (Some 0, [blank]) else (None, []))
             else (case get snum' reg of
                     None \<Rightarrow>
                       (if calloc_ok then (Some (length reg), reg @ [blank]) else (None, reg))
                   | Some i \<Rightarrow> (Some i, reg)))
      in case tt of
           None \<Rightarrow> (None, if v = 1 then w\<lparr>serial := serial w @ ''<X>''\<rparr> else w)
         | Some i \<Rightarrow>
             (Some i,
              w\<lparr>firstSensor :=
                   reg1[i := (reg1 ! i)\<lparr>data := \<lparr>snum = snum', pin = pin',
                                                  pullUp = (if pullUp' = 0 then LOW else HIGH)\<rparr>,
                                         active := False, signal := 1\<rparr>],
                 hw := hw w @ [PinModeInput pin', DigitalWrite pin' pullUp'],
                 serial := serial w @ (if v = 1 then ''<O>'' else [])\<rparr>))"

text \<open>
  The loop of \<open>remove\<close> with the unlinking that follows it: the list without the first
  node whose \<open>snum\<close> is \<open>n\<close>, or \<open>None\<close> when the loop ends at \<open>NULL\<close>.
\<close>

fun unlink :: "16 word \<Rightarrow> Sensor list \<Rightarrow> Sensor list option" where
  "unlink n [] = None"
| "unlink n (tt # ts) =
     (if snum (data tt) \<noteq> n then map_option ((#) tt) (unlink n ts) else Some ts)"

definition remove_sensor :: "16 word \<Rightarrow> world \<Rightarrow> world" where
  "remove_sensor n w =
     (case unlink n (firstSensor w) of
        None \<Rightarrow> w\<lparr>serial := serial w @ ''<X>''\<rparr>
      | Some reg \<Rightarrow> w\<lparr>firstSensor := reg, serial := serial w @ ''<O>''\<rparr>)"

section \<open>Sensor::show, Sensor::parse\<close>

fun show_loop :: "Sensor list \<Rightarrow> string" where
  "show_loop [] = []"
| "show_loop (tt # ts) =
     ''<Q'' @ print_int (snum (data tt)) @ '' '' @ print_int (pin (data tt)) @ '' ''
       @ print_int (pullUp (data tt)) @ ''>'' @ show_loop ts"

definition show_sensors :: "world \<Rightarrow> world" where
  "show_sensors w =
     (if firstSensor w = [] then w\<lparr>serial := serial w @ ''<X>''\<rparr>
      else w\<lparr>serial := serial w @ show_loop (firstSensor w)\<rparr>)"

text \<open>
  \<open>parse\<close> switches on the value \<open>r\<close> returned by \<open>sscanf(c, "%d %d %d", &n, &s, &m)\<close>, a
  function of the C library: \<open>r\<close> is the number of integers converted, or \<open>-1\<close> (\<open>EOF\<close>)
  when the input ends before the first conversion; \<open>n\<close>, \<open>s\<close>, \<open>m\<close> are the variables after
  the call. The switch has no \<open>default\<close>.
\<close>

definition parse ::
  "16 word \<Rightarrow> 16 word \<Rightarrow> 16 word \<Rightarrow> 16 word \<Rightarrow> bool \<Rightarrow> world \<Rightarrow> world" where
  "parse r n s m calloc_ok w =
     (if r = 3 then snd (create n s m 1 calloc_ok w)
      else if r = 1 then remove_sensor n w
      else if r = - 1 then show_sensors w
      else if r = 2 then w\<lparr>serial := serial w @ ''<X>''\<rparr>
      else w)"

section \<open>Sensor::store, Sensor::load\<close>

text \<open>\<open>sz\<close> is \<open>sizeof(tt->data)\<close>, the number of addresses one record takes.\<close>

fun store_loop :: "nat \<Rightarrow> Sensor list \<Rightarrow> world \<Rightarrow> world" where
  "store_loop sz [] w = w"
| "store_loop sz (tt # ts) w =
     store_loop sz ts
       (w\<lparr>eeprom := (eeprom w)(pointer w := data tt),
          pointer := pointer w + sz,
          nSensors := nSensors w + 1\<rparr>)"

definition store :: "nat \<Rightarrow> world \<Rightarrow> world" where
  "store sz w = store_loop sz (firstSensor w) (w\<lparr>nSensors := 0\<rparr>)"

text \<open>
  \<open>load\<close> calls \<open>create\<close> with three arguments, so \<open>v\<close> takes the default of the missing
  declaration: it is the parameter \<open>v\<close>. \<open>calloc_ok i\<close> is the outcome of the allocation
  of iteration \<open>i\<close>. The loop runs \<open>k\<close> more times from index \<open>i\<close>; \<open>load\<close> starts it with
  \<open>i = 0\<close> and \<open>k = nSensors\<close>, which no iteration changes.
\<close>

fun load_loop :: "nat \<Rightarrow> 16 word \<Rightarrow> (nat \<Rightarrow> bool) \<Rightarrow> nat \<Rightarrow> nat \<Rightarrow> world \<Rightarrow> world" where
  "load_loop sz v calloc_ok i 0 w = w"
| "load_loop sz v calloc_ok i (Suc k) w =
     (let d = eeprom w (pointer w);
          w1 = snd (create (snum d) (pin d) (pullUp d) v (calloc_ok i) w)
      in load_loop sz v calloc_ok (Suc i) k (w1\<lparr>pointer := pointer w1 + sz\<rparr>))"

definition load :: "nat \<Rightarrow> 16 word \<Rightarrow> (nat \<Rightarrow> bool) \<Rightarrow> world \<Rightarrow> world" where
  "load sz v calloc_ok w = load_loop sz v calloc_ok 0 (nSensors w) w"

section \<open>Sequences of operations\<close>

datatype op =
    Create "16 word" "16 word" "16 word" "16 word" bool
  | Remove "16 word"
  | Check "16 word \<Rightarrow> bool"
  | Show

fun exec :: "farith \<Rightarrow> op \<Rightarrow> world \<Rightarrow> world" where
  "exec fa (Create n p u v calloc_ok) w = snd (create n p u v calloc_ok w)"
| "exec fa (Remove n) w = remove_sensor n w"
| "exec fa (Check pins) w = check fa pins w"
| "exec fa Show w = show_sensors w"

fun run :: "farith \<Rightarrow> op list \<Rightarrow> world \<Rightarrow> world" where
  "run fa [] w = w"
| "run fa (x # xs) w = run fa xs (exec fa x w)"

text \<open>The state at start-up: \<open>firstSensor\<close> is \<open>NULL\<close>, nothing written, the store blank.\<close>

definition boot :: world where
  "boot = \<lparr>firstSensor = [], serial = [], hw = [],
           eeprom = (\<lambda>a. \<lparr>snum = 0, pin = 0, pullUp = 0\<rparr>), pointer = 0, nSensors = 0\<rparr>"

definition ids :: "Sensor list \<Rightarrow> 16 word list" where
  "ids reg = map (\<lambda>tt. snum (data tt)) reg"

text \<open>
  What every registry built by the operations satisfies: no id twice, and every pull-up
  field \<open>LOW\<close> or \<open>HIGH\<close>.
\<close>

definition registry_ok :: "Sensor list \<Rightarrow> bool" where
  "registry_ok reg \<longleftrightarrow>
     distinct (ids reg) \<and> list_all (\<lambda>tt. pullUp (data tt) = LOW \<or> pullUp (data tt) = HIGH) reg"

section \<open>Evaluating the binary32 arithmetic\<close>

lemmas binary32_eval =
  filtered_def binary32_def rnd32_def ulp32_def ulp_down.simps ulp_up.simps rne_def

lemma rnd32_examples:
  "rnd32 (3 / 100) = 16106127 / 536870912 \<and>
   rnd32 (1 - 16106127 / 536870912) = 4068475 / 4194304 \<and>
   rnd32 (99 / 100) = 4152361 / 4194304 \<and>
   rnd32 (1 / 10 ^ 8) = 11258999 / 1125899906842624 \<and>
   rnd32 (1 - 11258999 / 1125899906842624) = 1 \<and>
   rnd32 (3 / 4) = 3 / 4 \<and> rnd32 1 = 1 \<and> rnd32 (- (1 / 3)) = - (11184811 / 33554432)"
  by (simp add: binary32_eval)

section \<open>Lookup\<close>

lemma get_None: "get n reg = None \<longleftrightarrow> n \<notin> set (ids reg)"
  by (induction reg) (auto simp: ids_def)

lemma get_Some:
  "get n reg = Some i \<Longrightarrow>
     i < length reg \<and> snum (data (reg ! i)) = n \<and> n \<notin> set (ids (take i reg))"
proof (induction reg arbitrary: i)
  case Nil
  then show ?case by simp
next
  case (Cons a reg)
  show ?case
  proof (cases "snum (data a) = n")
    case True
    with Cons.prems show ?thesis by (simp add: ids_def)
  next
    case False
    with Cons.prems obtain j where j: "get n reg = Some j" and i: "i = Suc j"
      by auto
    from Cons.IH [OF j] False i show ?thesis by (simp add: ids_def)
  qed
qed

lemma get_append:
  "get n (xs @ ys) =
     (case get n xs of Some i \<Rightarrow> Some i | None \<Rightarrow> map_option (\<lambda>j. length xs + j) (get n ys))"
  by (induction xs) (cases "get n ys"; auto split: option.splits)+

lemma get_update:
  "get n reg = Some i \<Longrightarrow> snum (data x) = n \<Longrightarrow> get n (reg[i := x]) = Some i"
proof (induction reg arbitrary: i)
  case Nil
  then show ?case by simp
next
  case (Cons a reg)
  show ?case
  proof (cases "snum (data a) = n")
    case True
    with Cons.prems show ?thesis by simp
  next
    case False
    with Cons.prems obtain j where j: "get n reg = Some j" and i: "i = Suc j"
      by auto
    from Cons.IH [OF j Cons.prems(2)] False i show ?thesis by simp
  qed
qed

section \<open>Creation\<close>

lemma Sensor_overwrite:
  "(x :: Sensor)\<lparr>data := d, active := a, signal := r\<rparr> = \<lparr>data = d, active = a, signal = r\<rparr>"
  by (cases x) simp

lemma create_found:
  "get n (firstSensor w) = Some i \<Longrightarrow>
   create n p u v calloc_ok w =
     (Some i,
      w\<lparr>firstSensor := (firstSensor w)
           [i := \<lparr>data = \<lparr>snum = n, pin = p, pullUp = (if u = 0 then LOW else HIGH)\<rparr>,
                  active = False, signal = 1\<rparr>],
        hw := hw w @ [PinModeInput p, DigitalWrite p u],
        serial := serial w @ (if v = 1 then ''<O>'' else [])\<rparr>)"
proof -
  assume g: "get n (firstSensor w) = Some i"
  then have "firstSensor w \<noteq> []" by auto
  with g show ?thesis by (simp add: create_def Let_def Sensor_overwrite)
qed

lemma create_absent:
  "get n (firstSensor w) = None \<Longrightarrow> calloc_ok \<Longrightarrow>
   create n p u v calloc_ok w =
     (Some (length (firstSensor w)),
      w\<lparr>firstSensor := firstSensor w
           @ [\<lparr>data = \<lparr>snum = n, pin = p, pullUp = (if u = 0 then LOW else HIGH)\<rparr>,
                active = False, signal = 1\<rparr>],
        hw := hw w @ [PinModeInput p, DigitalWrite p u],
        serial := serial w @ (if v = 1 then ''<O>'' else [])\<rparr>)"
  by (cases "firstSensor w") (simp_all add: create_def Let_def blank_def)

lemma create_failed:
  "get n (firstSensor w) = None \<Longrightarrow> \<not> calloc_ok \<Longrightarrow>
   create n p u v calloc_ok w = (None, if v = 1 then w\<lparr>serial := serial w @ ''<X>''\<rparr> else w)"
  by (cases "firstSensor w") (simp_all add: create_def)

lemma ids_update:
  "i < length reg \<Longrightarrow> snum (data x) = snum (data (reg ! i)) \<Longrightarrow> ids (reg[i := x]) = ids reg"
  by (simp add: ids_def map_update list_update_same_conv)

text \<open>
  C1, as amended. For every call \<open>create(n, p, u, v)\<close>: when the registry has a node with
  id \<open>n\<close>, no node is added; the first such node keeps its place and gets pin \<open>p\<close>, the
  pull-up \<open>LOW\<close> when \<open>u\<close> is 0 and \<open>HIGH\<close> otherwise, and the filter state \<open>signal = 1\<close>,
  \<open>active = false\<close>, and the length of the registry and the order of its ids are
  unchanged. When no node has id \<open>n\<close> and the allocation succeeds, exactly one node with
  those fields is appended at the end.
\<close>

theorem create_spec:
  "(n \<in> set (ids (firstSensor w)) \<longrightarrow>
      (\<exists>i. get n (firstSensor w) = Some i \<and> i < length (firstSensor w) \<and>
         firstSensor (snd (create n p u v calloc_ok w)) =
           (firstSensor w)
             [i := \<lparr>data = \<lparr>snum = n, pin = p, pullUp = (if u = 0 then LOW else HIGH)\<rparr>,
                    active = False, signal = 1\<rparr>]) \<and>
      length (firstSensor (snd (create n p u v calloc_ok w))) = length (firstSensor w) \<and>
      ids (firstSensor (snd (create n p u v calloc_ok w))) = ids (firstSensor w)) \<and>
   (n \<notin> set (ids (firstSensor w)) \<and> calloc_ok \<longrightarrow>
      firstSensor (snd (create n p u v calloc_ok w)) =
        firstSensor w
          @ [\<lparr>data = \<lparr>snum = n, pin = p, pullUp = (if u = 0 then LOW else HIGH)\<rparr>,
               active = False, signal = 1\<rparr>])"
proof (intro conjI impI)
  assume "n \<in> set (ids (firstSensor w))"
  then obtain i where g: "get n (firstSensor w) = Some i"
    using get_None [of n "firstSensor w"] by (cases "get n (firstSensor w)") auto
  from get_Some [OF g] have i: "i < length (firstSensor w)"
    and sn: "snum (data (firstSensor w ! i)) = n"
    by simp_all
  let ?x = "\<lparr>data = \<lparr>snum = n, pin = p, pullUp = (if u = 0 then LOW else HIGH)\<rparr>,
             active = False, signal = 1\<rparr>"
  have r: "firstSensor (snd (create n p u v calloc_ok w)) = (firstSensor w)[i := ?x]"
    by (simp add: create_found [OF g])
  from g i r show "\<exists>i. get n (firstSensor w) = Some i \<and> i < length (firstSensor w) \<and>
      firstSensor (snd (create n p u v calloc_ok w)) = (firstSensor w)[i := ?x]"
    by blast
  from r show "length (firstSensor (snd (create n p u v calloc_ok w))) = length (firstSensor w)"
    by simp
  have "ids ((firstSensor w)[i := ?x]) = ids (firstSensor w)"
    using i sn by (intro ids_update) simp_all
  with r show "ids (firstSensor (snd (create n p u v calloc_ok w))) = ids (firstSensor w)"
    by simp
next
  assume "n \<notin> set (ids (firstSensor w)) \<and> calloc_ok"
  then have "get n (firstSensor w) = None" and calloc_ok
    by (simp_all add: get_None)
  then show "firstSensor (snd (create n p u v calloc_ok w)) =
      firstSensor w
        @ [\<lparr>data = \<lparr>snum = n, pin = p, pullUp = (if u = 0 then LOW else HIGH)\<rparr>,
             active = False, signal = 1\<rparr>]"
    by (simp add: create_absent)
qed

theorem create_spec_witness:
  "(7::16 word) \<in> set (ids [\<lparr>data = \<lparr>snum = 5, pin = 2, pullUp = 0\<rparr>, active = True, signal = 0\<rparr>,
                            \<lparr>data = \<lparr>snum = 7, pin = 3, pullUp = 1\<rparr>, active = True, signal = 0\<rparr>]) \<and>
   firstSensor (snd (create 7 9 0 1 False (boot\<lparr>firstSensor :=
       [\<lparr>data = \<lparr>snum = 5, pin = 2, pullUp = 0\<rparr>, active = True, signal = 0\<rparr>,
        \<lparr>data = \<lparr>snum = 7, pin = 3, pullUp = 1\<rparr>, active = True, signal = 0\<rparr>]\<rparr>)))
     = [\<lparr>data = \<lparr>snum = 5, pin = 2, pullUp = 0\<rparr>, active = True, signal = 0\<rparr>,
        \<lparr>data = \<lparr>snum = 7, pin = 9, pullUp = 0\<rparr>, active = False, signal = 1\<rparr>] \<and>
   (8::16 word) \<notin> set (ids [\<lparr>data = \<lparr>snum = 5, pin = 2, pullUp = 0\<rparr>, active = True, signal = 0\<rparr>,
                            \<lparr>data = \<lparr>snum = 7, pin = 3, pullUp = 1\<rparr>, active = True, signal = 0\<rparr>]) \<and>
   firstSensor (snd (create 8 4 1 0 True (boot\<lparr>firstSensor :=
       [\<lparr>data = \<lparr>snum = 5, pin = 2, pullUp = 0\<rparr>, active = True, signal = 0\<rparr>,
        \<lparr>data = \<lparr>snum = 7, pin = 3, pullUp = 1\<rparr>, active = True, signal = 0\<rparr>]\<rparr>)))
     = [\<lparr>data = \<lparr>snum = 5, pin = 2, pullUp = 0\<rparr>, active = True, signal = 0\<rparr>,
        \<lparr>data = \<lparr>snum = 7, pin = 3, pullUp = 1\<rparr>, active = True, signal = 0\<rparr>,
        \<lparr>data = \<lparr>snum = 8, pin = 4, pullUp = 1\<rparr>, active = False, signal = 1\<rparr>]"
  using create_spec [of 7 "boot\<lparr>firstSensor :=
       [\<lparr>data = \<lparr>snum = 5, pin = 2, pullUp = 0\<rparr>, active = True, signal = 0\<rparr>,
        \<lparr>data = \<lparr>snum = 7, pin = 3, pullUp = 1\<rparr>, active = True, signal = 0\<rparr>]\<rparr>" 9 0 1 False]
    create_spec [of 8 "boot\<lparr>firstSensor :=
       [\<lparr>data = \<lparr>snum = 5, pin = 2, pullUp = 0\<rparr>, active = True, signal = 0\<rparr>,
        \<lparr>data = \<lparr>snum = 7, pin = 3, pullUp = 1\<rparr>, active = True, signal = 0\<rparr>]\<rparr>" 4 1 0 True]
  by (simp add: ids_def boot_def)

lemma create_twice_example:
  "firstSensor (run fa [Create 5 2 0 1 True, Create 5 4 0 1 True] boot)
     = [\<lparr>data = \<lparr>snum = 5, pin = 4, pullUp = 0\<rparr>, active = False, signal = 1\<rparr>] \<and>
   serial (run fa [Create 5 2 0 1 True, Create 5 4 0 1 True] boot) = ''<O><O>''"
  by (simp add: create_def boot_def blank_def Let_def)

text \<open>
  C1 as stated fails twice. On the empty registry, \<open>create(5, 2, 0)\<close> whose allocation
  fails appends no node although no node has id 5; and \<open>create(5, 2, 2)\<close> appends a node
  whose pull-up field is 1, not the argument 2.
\<close>

theorem create_spec_counterexample:
  "(5::16 word) \<notin> set (ids (firstSensor boot)) \<and>
   firstSensor (snd (create 5 2 0 0 False boot)) = [] \<and>
   pullUp (data (last (firstSensor (snd (create 5 2 2 0 True boot))))) = 1 \<and>
   pullUp (data (last (firstSensor (snd (create 5 2 2 0 True boot))))) \<noteq> 2"
  by (simp add: create_def boot_def ids_def blank_def Let_def)

text \<open>
  C7, as amended. When \<open>create(n, p, u)\<close> returns a node, \<open>get(n)\<close> right after it
  returns the same node, whose pin is \<open>p\<close>, whose pull-up field is \<open>LOW\<close> when \<open>u\<close> is 0
  and \<open>HIGH\<close> for every other \<open>u\<close> (so it equals \<open>u\<close> exactly when \<open>u\<close> is 0 or 1), and
  whose filter state is \<open>signal = 1\<close>, \<open>active = false\<close>.
\<close>

theorem create_then_get:
  "create n p u v calloc_ok w = (Some i, w') \<Longrightarrow>
     get n (firstSensor w') = Some i \<and> i < length (firstSensor w') \<and>
     firstSensor w' ! i =
       \<lparr>data = \<lparr>snum = n, pin = p, pullUp = (if u = 0 then LOW else HIGH)\<rparr>,
        active = False, signal = 1\<rparr>"
proof -
  assume c: "create n p u v calloc_ok w = (Some i, w')"
  let ?x = "\<lparr>data = \<lparr>snum = n, pin = p, pullUp = (if u = 0 then LOW else HIGH)\<rparr>,
             active = False, signal = 1\<rparr>"
  show ?thesis
  proof (cases "get n (firstSensor w)")
    case None
    have calloc_ok
    proof (rule ccontr)
      assume "\<not> calloc_ok"
      from create_failed [OF None this] c show False by simp
    qed
    from create_absent [OF None this] c
    have i: "i = length (firstSensor w)" and w': "firstSensor w' = firstSensor w @ [?x]"
      by auto
    from None have "get n (firstSensor w @ [?x]) = Some (length (firstSensor w))"
      by (simp add: get_append)
    with i w' show ?thesis by simp
  next
    case (Some j)
    from create_found [OF Some] c
    have i: "i = j" and w': "firstSensor w' = (firstSensor w)[j := ?x]"
      by auto
    from get_Some [OF Some] have j: "j < length (firstSensor w)"
      by simp
    have "get n ((firstSensor w)[j := ?x]) = Some j"
      by (rule get_update [OF Some]) simp
    with i w' j show ?thesis by simp
  qed
qed

theorem create_then_get_witness:
  "create 5 2 1 0 True boot =
     (Some 0, boot\<lparr>firstSensor := [\<lparr>data = \<lparr>snum = 5, pin = 2, pullUp = 1\<rparr>,
                                     active = False, signal = 1\<rparr>],
                   hw := [PinModeInput 2, DigitalWrite 2 1]\<rparr>) \<and>
   get 5 [\<lparr>data = \<lparr>snum = 5, pin = 2, pullUp = 1\<rparr>, active = False, signal = 1\<rparr>] = Some 0"
proof -
  have c: "create 5 2 1 0 True boot =
     (Some 0, boot\<lparr>firstSensor := [\<lparr>data = \<lparr>snum = 5, pin = 2, pullUp = 1\<rparr>,
                                     active = False, signal = 1\<rparr>],
                   hw := [PinModeInput 2, DigitalWrite 2 1]\<rparr>)"
    by (simp add: create_def boot_def blank_def Let_def)
  from create_then_get [OF c] c show ?thesis by simp
qed

text \<open>
  C7 as stated fails at \<open>create(5, 2, 2)\<close> on the empty registry: the call succeeds,
  \<open>get(5)\<close> returns the node, and its pull-up field is 1, not the argument 2.
\<close>

theorem create_then_get_counterexample:
  "fst (create 5 2 2 0 True boot) = Some 0 \<and>
   get 5 (firstSensor (snd (create 5 2 2 0 True boot))) = Some 0 \<and>
   pullUp (data (firstSensor (snd (create 5 2 2 0 True boot)) ! 0)) = 1 \<and>
   pullUp (data (firstSensor (snd (create 5 2 2 0 True boot)) ! 0)) \<noteq> 2"
  by (simp add: create_def boot_def blank_def Let_def)

text \<open>
  C8. For every call of \<open>create\<close> whose allocation fails (no node has the id, so a node
  is needed, and \<open>calloc\<close> returns \<open>NULL\<close>): the result is \<open>NULL\<close>, the registry, the
  hardware and the store are as they were, and the output grows by the failure token
  \<open><X>\<close> when \<open>v\<close> is 1 and by nothing otherwise.
\<close>

theorem create_allocation_failure:
  "n \<notin> set (ids (firstSensor w)) \<Longrightarrow> \<not> calloc_ok \<Longrightarrow>
   create n p u v calloc_ok w =
     (None, w\<lparr>serial := serial w @ (if v = 1 then ''<X>'' else [])\<rparr>)"
  by (simp add: create_failed get_None)

theorem create_allocation_failure_witness:
  "(8::16 word) \<notin> set (ids [\<lparr>data = \<lparr>snum = 5, pin = 2, pullUp = 0\<rparr>, active = True, signal = 0\<rparr>]) \<and>
   create 8 4 1 1 False (boot\<lparr>firstSensor :=
       [\<lparr>data = \<lparr>snum = 5, pin = 2, pullUp = 0\<rparr>, active = True, signal = 0\<rparr>]\<rparr>)
     = (None, boot\<lparr>firstSensor :=
       [\<lparr>data = \<lparr>snum = 5, pin = 2, pullUp = 0\<rparr>, active = True, signal = 0\<rparr>],
       serial := ''<X>''\<rparr>) \<and>
   create 8 4 1 0 False (boot\<lparr>firstSensor :=
       [\<lparr>data = \<lparr>snum = 5, pin = 2, pullUp = 0\<rparr>, active = True, signal = 0\<rparr>]\<rparr>)
     = (None, boot\<lparr>firstSensor :=
       [\<lparr>data = \<lparr>snum = 5, pin = 2, pullUp = 0\<rparr>, active = True, signal = 0\<rparr>]\<rparr>)"
  using create_allocation_failure [of 8 "boot\<lparr>firstSensor :=
       [\<lparr>data = \<lparr>snum = 5, pin = 2, pullUp = 0\<rparr>, active = True, signal = 0\<rparr>]\<rparr>" False 4 1 1]
    create_allocation_failure [of 8 "boot\<lparr>firstSensor :=
       [\<lparr>data = \<lparr>snum = 5, pin = 2, pullUp = 0\<rparr>, active = True, signal = 0\<rparr>]\<rparr>" False 4 1 0]
  by (simp add: ids_def boot_def)

section \<open>Removal\<close>

lemma unlink_None: "unlink n reg = None \<longleftrightarrow> n \<notin> set (ids reg)"
  by (induction reg) (auto simp: ids_def)

lemma unlink_Some:
  "unlink n reg = Some reg' \<Longrightarrow>
     \<exists>xs tt ys. reg = xs @ tt # ys \<and> reg' = xs @ ys \<and> snum (data tt) = n \<and> n \<notin> set (ids xs)"
proof (induction reg arbitrary: reg')
  case Nil
  then show ?case by simp
next
  case (Cons a reg)
  show ?case
  proof (cases "snum (data a) = n")
    case True
    with Cons.prems have "reg' = reg" by simp
    with True have "a # reg = [] @ a # reg \<and> reg' = [] @ reg \<and> snum (data a) = n
        \<and> n \<notin> set (ids [])"
      by (simp add: ids_def)
    then show ?thesis by blast
  next
    case False
    with Cons.prems obtain r where r: "unlink n reg = Some r" and reg': "reg' = a # r"
      by auto
    from Cons.IH [OF r] obtain xs tt ys where
      "reg = xs @ tt # ys" "r = xs @ ys" "snum (data tt) = n" "n \<notin> set (ids xs)"
      by blast
    with False reg' have "a # reg = (a # xs) @ tt # ys \<and> reg' = (a # xs) @ ys
        \<and> snum (data tt) = n \<and> n \<notin> set (ids (a # xs))"
      by (simp add: ids_def)
    then show ?thesis by blast
  qed
qed

text \<open>
  C5. For every registry and every id \<open>n\<close>: when a node with that id is in the registry,
  \<open>remove\<close> takes out exactly one node, the first with that id, keeps every other node in
  its place and order, and prints the success token \<open><O>\<close>; when no node has that id, the
  registry and everything else but the output is unchanged and the failure token \<open><X>\<close>
  is printed.
\<close>

theorem remove_sensor_spec:
  "(n \<in> set (ids (firstSensor w)) \<longrightarrow>
      (\<exists>xs tt ys. firstSensor w = xs @ tt # ys \<and> snum (data tt) = n \<and> n \<notin> set (ids xs) \<and>
         remove_sensor n w = w\<lparr>firstSensor := xs @ ys, serial := serial w @ ''<O>''\<rparr>)) \<and>
   (n \<notin> set (ids (firstSensor w)) \<longrightarrow>
      remove_sensor n w = w\<lparr>serial := serial w @ ''<X>''\<rparr>)"
proof (intro conjI impI)
  assume "n \<in> set (ids (firstSensor w))"
  then obtain reg' where r: "unlink n (firstSensor w) = Some reg'"
    using unlink_None [of n "firstSensor w"] by (cases "unlink n (firstSensor w)") auto
  from unlink_Some [OF r] obtain xs tt ys where
    s: "firstSensor w = xs @ tt # ys" "reg' = xs @ ys" "snum (data tt) = n" "n \<notin> set (ids xs)"
    by blast
  from r s have "remove_sensor n w = w\<lparr>firstSensor := xs @ ys, serial := serial w @ ''<O>''\<rparr>"
    by (simp add: remove_sensor_def)
  with s show "\<exists>xs tt ys. firstSensor w = xs @ tt # ys \<and> snum (data tt) = n \<and> n \<notin> set (ids xs) \<and>
      remove_sensor n w = w\<lparr>firstSensor := xs @ ys, serial := serial w @ ''<O>''\<rparr>"
    by blast
next
  assume "n \<notin> set (ids (firstSensor w))"
  then have "unlink n (firstSensor w) = None"
    by (simp add: unlink_None)
  then show "remove_sensor n w = w\<lparr>serial := serial w @ ''<X>''\<rparr>"
    by (simp add: remove_sensor_def)
qed

theorem remove_sensor_spec_witness:
  "(7::16 word) \<in> set (ids [\<lparr>data = \<lparr>snum = 5, pin = 2, pullUp = 0\<rparr>, active = False, signal = 1\<rparr>,
                            \<lparr>data = \<lparr>snum = 7, pin = 3, pullUp = 1\<rparr>, active = True, signal = 0\<rparr>]) \<and>
   firstSensor (remove_sensor 7 (boot\<lparr>firstSensor :=
       [\<lparr>data = \<lparr>snum = 5, pin = 2, pullUp = 0\<rparr>, active = False, signal = 1\<rparr>,
        \<lparr>data = \<lparr>snum = 7, pin = 3, pullUp = 1\<rparr>, active = True, signal = 0\<rparr>]\<rparr>))
     = [\<lparr>data = \<lparr>snum = 5, pin = 2, pullUp = 0\<rparr>, active = False, signal = 1\<rparr>] \<and>
   serial (remove_sensor 7 (boot\<lparr>firstSensor :=
       [\<lparr>data = \<lparr>snum = 5, pin = 2, pullUp = 0\<rparr>, active = False, signal = 1\<rparr>,
        \<lparr>data = \<lparr>snum = 7, pin = 3, pullUp = 1\<rparr>, active = True, signal = 0\<rparr>]\<rparr>)) = ''<O>'' \<and>
   (9::16 word) \<notin> set (ids [\<lparr>data = \<lparr>snum = 5, pin = 2, pullUp = 0\<rparr>, active = False, signal = 1\<rparr>,
                            \<lparr>data = \<lparr>snum = 7, pin = 3, pullUp = 1\<rparr>, active = True, signal = 0\<rparr>]) \<and>
   remove_sensor 9 (boot\<lparr>firstSensor :=
       [\<lparr>data = \<lparr>snum = 5, pin = 2, pullUp = 0\<rparr>, active = False, signal = 1\<rparr>,
        \<lparr>data = \<lparr>snum = 7, pin = 3, pullUp = 1\<rparr>, active = True, signal = 0\<rparr>]\<rparr>)
     = boot\<lparr>firstSensor :=
       [\<lparr>data = \<lparr>snum = 5, pin = 2, pullUp = 0\<rparr>, active = False, signal = 1\<rparr>,
        \<lparr>data = \<lparr>snum = 7, pin = 3, pullUp = 1\<rparr>, active = True, signal = 0\<rparr>],
        serial := ''<X>''\<rparr>"
  using remove_sensor_spec [of 7 "boot\<lparr>firstSensor :=
       [\<lparr>data = \<lparr>snum = 5, pin = 2, pullUp = 0\<rparr>, active = False, signal = 1\<rparr>,
        \<lparr>data = \<lparr>snum = 7, pin = 3, pullUp = 1\<rparr>, active = True, signal = 0\<rparr>]\<rparr>"]
    remove_sensor_spec [of 9 "boot\<lparr>firstSensor :=
       [\<lparr>data = \<lparr>snum = 5, pin = 2, pullUp = 0\<rparr>, active = False, signal = 1\<rparr>,
        \<lparr>data = \<lparr>snum = 7, pin = 3, pullUp = 1\<rparr>, active = True, signal = 0\<rparr>]\<rparr>"]
  by (simp add: ids_def boot_def remove_sensor_def)

section \<open>Enumeration and the command switch\<close>

lemma show_loop_concat:
  "show_loop reg =
     concat (map (\<lambda>tt. ''<Q'' @ print_int (snum (data tt)) @ '' '' @ print_int (pin (data tt))
                          @ '' '' @ print_int (pullUp (data tt)) @ ''>'') reg)"
  by (induction reg) simp_all

text \<open>
  C10. On the empty registry \<open>show\<close> prints the failure token \<open><X>\<close> and nothing else.
  On a non-empty registry it prints, for each node in list order, one token made of
  \<open><Q\<close>, the id, a space, the pin, a space, the pull-up field and \<open>>\<close>. In both cases
  nothing but the output changes: the registry, with every filter state, is as before.
\<close>

theorem show_sensors_spec:
  "show_sensors w =
     w\<lparr>serial := serial w @
         (if firstSensor w = [] then ''<X>''
          else concat (map (\<lambda>tt. ''<Q'' @ print_int (snum (data tt)) @ '' ''
                                  @ print_int (pin (data tt)) @ '' ''
                                  @ print_int (pullUp (data tt)) @ ''>'') (firstSensor w)))\<rparr>"
  by (simp add: show_sensors_def show_loop_concat)

lemma show_sensors_example:
  "serial (show_sensors (boot\<lparr>firstSensor :=
       [\<lparr>data = \<lparr>snum = 5, pin = 2, pullUp = 0\<rparr>, active = True, signal = 0\<rparr>,
        \<lparr>data = \<lparr>snum = - 7, pin = 13, pullUp = 1\<rparr>, active = False, signal = 1\<rparr>]\<rparr>))
     = ''<Q5 2 0><Q-7 13 1>'' \<and>
   serial (show_sensors boot) = ''<X>''"
  by (simp add: show_sensors_def boot_def print_int_def digits.simps)

text \<open>
  C9, as amended. \<open>parse\<close> acts on the value returned by \<open>sscanf\<close>: on 3 (id, pin and
  pull-up flag read) it calls \<open>create\<close> with \<open>v = 1\<close>; on 1 (id read) it calls
  \<open>remove\<close>; on \<open>-1\<close>, that is when the command ends before any integer, it calls
  \<open>show\<close>; on 2 it touches nothing and prints the failure token \<open><X>\<close>.
\<close>

theorem parse_spec:
  "parse 3 n s m calloc_ok w = snd (create n s m 1 calloc_ok w) \<and>
   parse 1 n s m calloc_ok w = remove_sensor n w \<and>
   parse (- 1) n s m calloc_ok w = show_sensors w \<and>
   parse 2 n s m calloc_ok w = w\<lparr>serial := serial w @ ''<X>''\<rparr>"
  by (simp add: parse_def)

text \<open>
  C9 as stated fails when \<open>sscanf\<close> returns 0, as it does for a command whose first token
  is not an integer: no integer is read, yet nothing is enumerated. With one sensor in
  the registry, \<open>parse\<close> leaves the state as it is, output included, while \<open>show\<close> would
  print that sensor.
\<close>

theorem parse_spec_counterexample:
  "parse 0 0 0 0 True (boot\<lparr>firstSensor :=
       [\<lparr>data = \<lparr>snum = 5, pin = 2, pullUp = 0\<rparr>, active = False, signal = 1\<rparr>]\<rparr>)
     = boot\<lparr>firstSensor :=
       [\<lparr>data = \<lparr>snum = 5, pin = 2, pullUp = 0\<rparr>, active = False, signal = 1\<rparr>]\<rparr> \<and>
   serial (parse 0 0 0 0 True (boot\<lparr>firstSensor :=
       [\<lparr>data = \<lparr>snum = 5, pin = 2, pullUp = 0\<rparr>, active = False, signal = 1\<rparr>]\<rparr>)) = [] \<and>
   serial (show_sensors (boot\<lparr>firstSensor :=
       [\<lparr>data = \<lparr>snum = 5, pin = 2, pullUp = 0\<rparr>, active = False, signal = 1\<rparr>]\<rparr>))
     = ''<Q5 2 0>''"
  by (simp add: parse_def show_sensors_def boot_def print_int_def digits.simps)

section \<open>The debounce filter\<close>

lemma check_loop_map:
  "check_loop fa pins reg =
     (map (\<lambda>tt. fst (check_step fa pins tt)) reg,
      concat (map (\<lambda>tt. snd (check_step fa pins tt)) reg))"
  by (induction reg) (simp_all add: split_beta)


section \<open>Uniqueness of ids\<close>

lemma registry_ok_update:
  assumes "registry_ok reg" and "get n reg = Some i"
    and "u = LOW \<or> u = HIGH"
  shows "registry_ok (reg[i := \<lparr>data = \<lparr>snum = n, pin = p, pullUp = u\<rparr>, active = a, signal = r\<rparr>])"
proof -
  let ?x = "\<lparr>data = \<lparr>snum = n, pin = p, pullUp = u\<rparr>, active = a, signal = r\<rparr>"
  from get_Some [OF assms(2)] have i: "i < length reg" and sn: "snum (data (reg ! i)) = n"
    by simp_all
  have "ids (reg[i := ?x]) = ids reg"
    using i sn by (intro ids_update) simp_all
  moreover have "set (reg[i := ?x]) \<subseteq> insert ?x (set reg)"
    by (rule set_update_subset_insert)
  ultimately show ?thesis
    using assms(1,3) by (auto simp: registry_ok_def list_all_iff)
qed

lemma registry_ok_append:
  assumes "registry_ok reg" and "get n reg = None" and "u = LOW \<or> u = HIGH"
  shows "registry_ok (reg @ [\<lparr>data = \<lparr>snum = n, pin = p, pullUp = u\<rparr>, active = a, signal = r\<rparr>])"
  using assms by (auto simp: registry_ok_def ids_def get_None)

lemma registry_ok_create:
  "registry_ok (firstSensor w) \<Longrightarrow> registry_ok (firstSensor (snd (create n p u v calloc_ok w)))"
proof (cases "get n (firstSensor w)")
  case None
  assume ok: "registry_ok (firstSensor w)"
  show ?thesis
  proof (cases calloc_ok)
    case True
    from registry_ok_append [OF ok None, of "if u = 0 then LOW else HIGH"]
    show ?thesis by (simp add: create_absent [OF None True])
  next
    case False
    from ok show ?thesis by (simp add: create_failed [OF None False])
  qed
next
  case (Some i)
  assume ok: "registry_ok (firstSensor w)"
  from registry_ok_update [OF ok Some, of "if u = 0 then LOW else HIGH"]
  show ?thesis by (simp add: create_found [OF Some])
qed

lemma registry_ok_remove:
  "registry_ok (firstSensor w) \<Longrightarrow> registry_ok (firstSensor (remove_sensor n w))"
proof (cases "unlink n (firstSensor w)")
  case None
  assume "registry_ok (firstSensor w)"
  with None show ?thesis by (simp add: remove_sensor_def)
next
  case (Some reg')
  assume ok: "registry_ok (firstSensor w)"
  from unlink_Some [OF Some] obtain xs tt ys where
    "firstSensor w = xs @ tt # ys" "reg' = xs @ ys"
    by blast
  with ok have "registry_ok reg'"
    by (auto simp: registry_ok_def ids_def)
  with Some show ?thesis by (simp add: remove_sensor_def)
qed

lemma check_step_data: "data (fst (check_step fa pins tt)) = data tt"
  by (simp add: check_step_def Let_def)

lemma registry_ok_check:
  "registry_ok (firstSensor w) \<Longrightarrow> registry_ok (firstSensor (check fa pins w))"
  by (simp add: check_def check_loop_map registry_ok_def ids_def list_all_iff
      check_step_data comp_def)

lemma firstSensor_show: "firstSensor (show_sensors w) = firstSensor w"
  by (simp add: show_sensors_def)

lemma registry_ok_exec:
  "registry_ok (firstSensor w) \<Longrightarrow> registry_ok (firstSensor (exec fa x w))"
  by (cases x)
    (simp_all add: registry_ok_create registry_ok_remove registry_ok_check firstSensor_show)

lemma registry_ok_run:
  "registry_ok (firstSensor w) \<Longrightarrow> registry_ok (firstSensor (run fa xs w))"
  by (induction xs arbitrary: w) (simp_all add: registry_ok_exec)

lemma registry_ok_boot: "registry_ok (firstSensor boot)"
  by (simp add: registry_ok_def boot_def ids_def)

text \<open>
  C2. Start from the empty registry and run any finite sequence of operations
  (\<open>create\<close> with either outcome of its allocation, \<open>remove\<close>, and also ticks and
  \<open>show\<close>). After the first \<open>k\<close> operations, for every \<open>k\<close> (so at every intermediate
  state and at the final one), no two nodes of the registry have the same id.
\<close>

theorem ids_unique:
  "distinct (ids (firstSensor (run fa (take k xs) boot)))"
  using registry_ok_run [OF registry_ok_boot, of fa "take k xs"]
  by (simp add: registry_ok_def)

lemma run_example:
  "ids (firstSensor (run fa
      [Create 5 2 0 1 True, Create 7 3 1 1 True, Create 5 4 0 1 True, Remove 7,
       Create 7 3 1 1 False, Create 9 6 2 0 True] boot)) = [5, 9]"
  by (simp add: create_def remove_sensor_def boot_def blank_def ids_def Let_def)

section \<open>Persistence\<close>

lemma store_loop_frame:
  "firstSensor (store_loop sz reg w) = firstSensor w \<and>
   serial (store_loop sz reg w) = serial w \<and>
   hw (store_loop sz reg w) = hw w \<and>
   pointer (store_loop sz reg w) = pointer w + length reg * sz \<and>
   nSensors (store_loop sz reg w) = nSensors w + length reg"
  by (induction reg arbitrary: w) simp_all

lemma store_loop_below:
  "a < pointer w \<Longrightarrow> eeprom (store_loop sz reg w) a = eeprom w a"
  by (induction reg arbitrary: w) simp_all

lemma store_loop_cell:
  "0 < sz \<Longrightarrow> k < length reg \<Longrightarrow>
     eeprom (store_loop sz reg w) (pointer w + k * sz) = data (reg ! k)"
proof (induction reg arbitrary: w k)
  case Nil
  then show ?case by simp
next
  case (Cons tt ts)
  let ?w1 = "w\<lparr>eeprom := (eeprom w)(pointer w := data tt),
               pointer := pointer w + sz, nSensors := nSensors w + 1\<rparr>"
  show ?case
  proof (cases k)
    case 0
    from Cons.prems(1) have "pointer w < pointer ?w1" by simp
    from store_loop_below [OF this, of sz ts] 0 show ?thesis by simp
  next
    case (Suc j)
    with Cons.prems have j: "j < length ts" by simp
    from Cons.IH [OF Cons.prems(1) j, of ?w1] Suc show ?thesis
      by (simp add: ac_simps)
  qed
qed

lemma create_store_fields:
  "eeprom (snd (create n p u v calloc_ok w)) = eeprom w \<and>
   pointer (snd (create n p u v calloc_ok w)) = pointer w \<and>
   nSensors (snd (create n p u v calloc_ok w)) = nSensors w"
proof (cases "get n (firstSensor w)")
  case None
  then show ?thesis
    by (cases calloc_ok) (simp_all add: create_absent create_failed)
next
  case (Some i)
  then show ?thesis by (simp add: create_found)
qed

lemma load_loop_appends:
  assumes "0 < sz"
  shows "\<lbrakk>\<forall>k < length recs. eeprom w (pointer w + k * sz) = recs ! k;
          distinct (map snum recs);
          \<forall>d \<in> set recs. snum d \<notin> set (ids (firstSensor w));
          \<forall>d \<in> set recs. pullUp d = LOW \<or> pullUp d = HIGH;
          \<forall>k < length recs. calloc_ok (i + k)\<rbrakk> \<Longrightarrow>
     firstSensor (load_loop sz v calloc_ok i (length recs) w) =
       firstSensor w @ map (\<lambda>d. \<lparr>data = d, active = False, signal = 1\<rparr>) recs"
proof (induction recs arbitrary: w i)
  case Nil
  then show ?case by simp
next
  case (Cons d ds)
  from Cons.prems(1) have d: "eeprom w (pointer w) = d" by force
  from Cons.prems(3) have absent: "get (snum d) (firstSensor w) = None"
    by (simp add: get_None)
  from Cons.prems(5) have ok: "calloc_ok i" by force
  from Cons.prems(4) have norm: "(if pullUp d = 0 then LOW else HIGH) = pullUp d"
    by auto
  let ?w1 = "snd (create (snum d) (pin d) (pullUp d) v (calloc_ok i) w)"
  let ?w2 = "?w1\<lparr>pointer := pointer ?w1 + sz\<rparr>"
  have reg1: "firstSensor ?w1 = firstSensor w @ [\<lparr>data = d, active = False, signal = 1\<rparr>]"
    using norm by (simp add: create_absent [OF absent ok])
  have st: "eeprom ?w2 = eeprom w" "pointer ?w2 = pointer w + sz"
    by (simp_all add: create_store_fields)
  have cells: "\<forall>k < length ds. eeprom ?w2 (pointer ?w2 + k * sz) = ds ! k"
  proof (intro allI impI)
    fix k assume "k < length ds"
    with Cons.prems(1) have "eeprom w (pointer w + Suc k * sz) = (d # ds) ! Suc k"
      by (metis Suc_less_eq length_Cons)
    then show "eeprom ?w2 (pointer ?w2 + k * sz) = ds ! k"
      by (simp add: create_store_fields ac_simps)
  qed
  have fresh: "\<forall>e \<in> set ds. snum e \<notin> set (ids (firstSensor ?w2))"
    using Cons.prems(2,3) by (force simp: reg1 ids_def image_iff)
  have oks: "\<forall>k < length ds. calloc_ok (Suc i + k)"
  proof (intro allI impI)
    fix k assume "k < length ds"
    with Cons.prems(5) have "calloc_ok (i + Suc k)"
      by (metis Suc_less_eq length_Cons)
    then show "calloc_ok (Suc i + k)" by simp
  qed
  from Cons.prems(2) have dist: "distinct (map snum ds)" by simp
  from Cons.prems(4) have norms: "\<forall>e \<in> set ds. pullUp e = LOW \<or> pullUp e = HIGH" by simp
  have "firstSensor (load_loop sz v calloc_ok (Suc i) (length ds) ?w2) =
      firstSensor ?w2 @ map (\<lambda>d. \<lparr>data = d, active = False, signal = 1\<rparr>) ds"
    by (rule Cons.IH [OF cells dist fresh norms oks])
  with d reg1 show ?case by (simp add: Let_def)
qed

text \<open>
  C4, as amended. Take any registry the operations can build from the empty one, with
  any filter states, and a store with any content \<open>ee\<close> and its cursor at \<open>base\<close>. Run
  \<open>store\<close>; then, as after a restart, run \<open>load\<close> on the empty registry with the cursor
  back at \<open>base\<close> and the count \<open>store\<close> left in the header. If every allocation made by
  \<open>load\<close> succeeds, the registry it builds has the same nodes in the same order, each
  with the \<open>data\<close> it had (id, pin, pull-up) and with the filter state \<open>signal = 1\<close>,
  \<open>active = false\<close>, whatever the filter state was before.
\<close>

theorem store_load_roundtrip:
  assumes "0 < sz"
    and "\<forall>k < length (firstSensor (run fa xs boot)). calloc_ok k"
  shows "firstSensor
           (load sz v calloc_ok
              ((store sz ((run fa xs boot)\<lparr>eeprom := ee, pointer := base\<rparr>))
                 \<lparr>firstSensor := [], pointer := base\<rparr>))
         = map (\<lambda>tt. tt\<lparr>active := False, signal := 1\<rparr>) (firstSensor (run fa xs boot)) \<and>
         map data (firstSensor
           (load sz v calloc_ok
              ((store sz ((run fa xs boot)\<lparr>eeprom := ee, pointer := base\<rparr>))
                 \<lparr>firstSensor := [], pointer := base\<rparr>)))
         = map data (firstSensor (run fa xs boot))"
proof -
  let ?reg = "firstSensor (run fa xs boot)"
  let ?w = "(run fa xs boot)\<lparr>eeprom := ee, pointer := base\<rparr>"
  let ?w2 = "(store sz ?w)\<lparr>firstSensor := [], pointer := base\<rparr>"
  let ?recs = "map data ?reg"
  have ok: "registry_ok ?reg"
    by (rule registry_ok_run [OF registry_ok_boot])
  have n: "nSensors ?w2 = length ?recs"
    by (simp add: store_def store_loop_frame)
  have cells: "\<forall>k < length ?recs. eeprom ?w2 (pointer ?w2 + k * sz) = ?recs ! k"
  proof (intro allI impI)
    fix k assume k: "k < length ?recs"
    then have "k < length ?reg" by simp
    from store_loop_cell [OF assms(1) this, of "?w\<lparr>nSensors := 0\<rparr>"] k
    show "eeprom ?w2 (pointer ?w2 + k * sz) = ?recs ! k"
      by (simp add: store_def)
  qed
  from ok have dist: "distinct (map snum ?recs)"
    by (simp add: registry_ok_def ids_def comp_def)
  have fresh: "\<forall>d \<in> set ?recs. snum d \<notin> set (ids (firstSensor ?w2))"
    by (simp add: ids_def)
  from ok have norms: "\<forall>d \<in> set ?recs. pullUp d = LOW \<or> pullUp d = HIGH"
    by (simp add: registry_ok_def list_all_iff)
  from assms(2) have oks: "\<forall>k < length ?recs. calloc_ok (0 + k)"
    by simp
  have "firstSensor (load_loop sz v calloc_ok 0 (length ?recs) ?w2) =
      firstSensor ?w2 @ map (\<lambda>d. \<lparr>data = d, active = False, signal = 1\<rparr>) ?recs"
    by (rule load_loop_appends [OF assms(1) cells dist fresh norms oks])
  with n have r: "firstSensor (load sz v calloc_ok ?w2) =
      map (\<lambda>tt. tt\<lparr>active := False, signal := 1\<rparr>) ?reg"
    by (simp add: load_def comp_def)
  then have "map data (firstSensor (load sz v calloc_ok ?w2)) = map data ?reg"
    by (simp add: comp_def)
  with r show ?thesis by simp
qed

theorem store_load_roundtrip_witness:
  "(0::nat) < 6 \<and>
   firstSensor (run (binary32 (1 / 4))
       [Create 5 2 0 1 True, Check (\<lambda>p. False), Create 7 3 4 0 True] boot)
     = [\<lparr>data = \<lparr>snum = 5, pin = 2, pullUp = 0\<rparr>, active = False, signal = 3 / 4\<rparr>,
        \<lparr>data = \<lparr>snum = 7, pin = 3, pullUp = 1\<rparr>, active = False, signal = 1\<rparr>] \<and>
   firstSensor
     (load 6 0 (\<lambda>k. True)
        ((store 6 ((run (binary32 (1 / 4))
             [Create 5 2 0 1 True, Check (\<lambda>p. False), Create 7 3 4 0 True] boot)
               \<lparr>eeprom := eeprom boot, pointer := 40\<rparr>))
           \<lparr>firstSensor := [], pointer := 40\<rparr>))
     = [\<lparr>data = \<lparr>snum = 5, pin = 2, pullUp = 0\<rparr>, active = False, signal = 1\<rparr>,
        \<lparr>data = \<lparr>snum = 7, pin = 3, pullUp = 1\<rparr>, active = False, signal = 1\<rparr>]"
proof -
  have r: "firstSensor (run (binary32 (1 / 4))
       [Create 5 2 0 1 True, Check (\<lambda>p. False), Create 7 3 4 0 True] boot)
     = [\<lparr>data = \<lparr>snum = 5, pin = 2, pullUp = 0\<rparr>, active = False, signal = 3 / 4\<rparr>,
        \<lparr>data = \<lparr>snum = 7, pin = 3, pullUp = 1\<rparr>, active = False, signal = 1\<rparr>]"
    by (simp add: create_def check_def check_step_def digitalRead_def boot_def blank_def Let_def
        binary32_eval)
  from r store_load_roundtrip
    [where sz = 6 and fa = "binary32 (1 / 4)" and calloc_ok = "\<lambda>k. True" and v = 0
       and ee = "eeprom boot" and base = 40
       and xs = "[Create 5 2 0 1 True, Check (\<lambda>p. False), Create 7 3 4 0 True]"]
  show ?thesis by simp
qed

text \<open>
  C4 as stated fails when an allocation of \<open>load\<close> fails: the registry with the one
  sensor 5 is stored with count 1, and \<open>load\<close>, whose \<open>calloc\<close> returns \<open>NULL\<close>, rebuilds
  the empty registry.
\<close>

theorem store_load_roundtrip_counterexample:
  "map data (firstSensor (run (binary32 (1 / 4)) [Create 5 2 0 0 True] boot))
     = [\<lparr>snum = 5, pin = 2, pullUp = 0\<rparr>] \<and>
   nSensors (store 6 (run (binary32 (1 / 4)) [Create 5 2 0 0 True] boot)) = 1 \<and>
   map data (firstSensor
     (load 6 0 (\<lambda>k. False)
        ((store 6 (run (binary32 (1 / 4)) [Create 5 2 0 0 True] boot))
           \<lparr>firstSensor := [], pointer := 0\<rparr>))) = []"
  by (simp add: create_def store_def load_def boot_def blank_def Let_def)

section \<open>Rounding to binary32\<close>


















section \<open>Constant input\<close>

lemma check_step_signal: "signal (fst (check_step fa pins tt)) = filtered fa pins tt"
  by (simp add: check_step_def Let_def)






lemma ticks_Suc_signal:
  "signal (fst (ticks fa pins (Suc k) tt)) = filtered fa pins (fst (ticks fa pins k tt))"
  by (simp add: split_beta check_step_signal)

lemma ticks_data: "data (fst (ticks fa pins k tt)) = data tt"
  by (induction k) (simp_all add: split_beta check_step_data)

lemma ticks_fixed: "check_step fa pins tt = (tt, []) \<Longrightarrow> ticks fa pins k tt = (tt, [])"
  by (induction k) simp_all




lemma ticks_step:
  "ticks fa pins k tt = (t1, out1) \<Longrightarrow> check_step fa pins t1 = (t2, out2) \<Longrightarrow>
     n = Suc k \<Longrightarrow> out = out1 @ out2 \<Longrightarrow> ticks fa pins n tt = (t2, out)"
  by simp




lemma never_triggers_example:
  "ticks (binary32 (1 / 10 ^ 8)) (\<lambda>p. False) k
      \<lparr>data = \<lparr>snum = 5, pin = 2, pullUp = 0\<rparr>, active = False, signal = 1\<rparr> = (
      \<lparr>data = \<lparr>snum = 5, pin = 2, pullUp = 0\<rparr>, active = False, signal = 1\<rparr>, [])"
  by (rule ticks_fixed) (simp add: check_step_def Let_def digitalRead_def binary32_eval)

text \<open>
  The same arithmetic with the macro written \<open>0.03\<close>: a high tick at 1 computes 1, and
  under a low pin the 23rd tick is the first to bring \<open>signal\<close> below 0.5 and prints the
  one token.
\<close>

lemma binary32_example:
  "filtered (binary32 (3 / 100)) (\<lambda>p. True)
      \<lparr>data = \<lparr>snum = 5, pin = 2, pullUp = 0\<rparr>, active = False, signal = 1\<rparr> = 1 \<and>
   ticks (binary32 (3 / 100)) (\<lambda>p. False) 22
       \<lparr>data = \<lparr>snum = 5, pin = 2, pullUp = 0\<rparr>, active = False, signal = 1\<rparr> = (
       \<lparr>data = \<lparr>snum = 5, pin = 2, pullUp = 0\<rparr>, active = False, signal = 8584169 / 16777216\<rparr>, []) \<and>
   ticks (binary32 (3 / 100)) (\<lambda>p. False) 23
       \<lparr>data = \<lparr>snum = 5, pin = 2, pullUp = 0\<rparr>, active = False, signal = 1\<rparr> = (
       \<lparr>data = \<lparr>snum = 5, pin = 2, pullUp = 0\<rparr>, active = True, signal = 2081661 / 4194304\<rparr>, ''<Q5>'') \<and>
   ticks (binary32 (3 / 100)) (\<lambda>p. False) 24
       \<lparr>data = \<lparr>snum = 5, pin = 2, pullUp = 0\<rparr>, active = False, signal = 1\<rparr> = (
       \<lparr>data = \<lparr>snum = 5, pin = 2, pullUp = 0\<rparr>, active = True, signal = 8076845 / 16777216\<rparr>, ''<Q5>'')"
proof -
  let ?B = "binary32 (3 / 100)"
  note ev = check_step_def Let_def digitalRead_def binary32_eval print_int_def digits.simps
  have high: "filtered ?B (\<lambda>p. True)
      \<lparr>data = \<lparr>snum = 5, pin = 2, pullUp = 0\<rparr>, active = False, signal = 1\<rparr> = 1"
    by (simp add: ev)
  have k0: "ticks ?B (\<lambda>p. False) 0
      \<lparr>data = \<lparr>snum = 5, pin = 2, pullUp = 0\<rparr>, active = False, signal = 1\<rparr> = (
      \<lparr>data = \<lparr>snum = 5, pin = 2, pullUp = 0\<rparr>, active = False, signal = 1\<rparr>, [])"
    by simp
  have kc1: "check_step ?B (\<lambda>p. False)
      \<lparr>data = \<lparr>snum = 5, pin = 2, pullUp = 0\<rparr>, active = False, signal = 1\<rparr> = (
      \<lparr>data = \<lparr>snum = 5, pin = 2, pullUp = 0\<rparr>, active = False, signal = 4068475 / 4194304\<rparr>, [])"
    by (simp add: ev)
  have k1: "ticks ?B (\<lambda>p. False) 1
      \<lparr>data = \<lparr>snum = 5, pin = 2, pullUp = 0\<rparr>, active = False, signal = 1\<rparr> = (
      \<lparr>data = \<lparr>snum = 5, pin = 2, pullUp = 0\<rparr>, active = False, signal = 4068475 / 4194304\<rparr>, [])"
    by (rule ticks_step [OF k0 kc1]) simp_all
  have kc2: "check_step ?B (\<lambda>p. False)
      \<lparr>data = \<lparr>snum = 5, pin = 2, pullUp = 0\<rparr>, active = False, signal = 4068475 / 4194304\<rparr> = (
      \<lparr>data = \<lparr>snum = 5, pin = 2, pullUp = 0\<rparr>, active = False, signal = 15785683 / 16777216\<rparr>, [])"
    by (simp add: ev)
  have k2: "ticks ?B (\<lambda>p. False) 2
      \<lparr>data = \<lparr>snum = 5, pin = 2, pullUp = 0\<rparr>, active = False, signal = 1\<rparr> = (
      \<lparr>data = \<lparr>snum = 5, pin = 2, pullUp = 0\<rparr>, active = False, signal = 15785683 / 16777216\<rparr>, [])"
    by (rule ticks_step [OF k1 kc2]) simp_all
  have kc3: "check_step ?B (\<lambda>p. False)
      \<lparr>data = \<lparr>snum = 5, pin = 2, pullUp = 0\<rparr>, active = False, signal = 15785683 / 16777216\<rparr> = (
      \<lparr>data = \<lparr>snum = 5, pin = 2, pullUp = 0\<rparr>, active = False, signal = 15312113 / 16777216\<rparr>, [])"
    by (simp add: ev)
  have k3: "ticks ?B (\<lambda>p. False) 3
      \<lparr>data = \<lparr>snum = 5, pin = 2, pullUp = 0\<rparr>, active = False, signal = 1\<rparr> = (
      \<lparr>data = \<lparr>snum = 5, pin = 2, pullUp = 0\<rparr>, active = False, signal = 15312113 / 16777216\<rparr>, [])"
    by (rule ticks_step [OF k2 kc3]) simp_all
  have kc4: "check_step ?B (\<lambda>p. False)
      \<lparr>data = \<lparr>snum = 5, pin = 2, pullUp = 0\<rparr>, active = False, signal = 15312113 / 16777216\<rparr> = (
      \<lparr>data = \<lparr>snum = 5, pin = 2, pullUp = 0\<rparr>, active = False, signal = 7426375 / 8388608\<rparr>, [])"
    by (simp add: ev)
  have k4: "ticks ?B (\<lambda>p. False) 4
      \<lparr>data = \<lparr>snum = 5, pin = 2, pullUp = 0\<rparr>, active = False, signal = 1\<rparr> = (
      \<lparr>data = \<lparr>snum = 5, pin = 2, pullUp = 0\<rparr>, active = False, signal = 7426375 / 8388608\<rparr>, [])"
    by (rule ticks_step [OF k3 kc4]) simp_all
  have kc5: "check_step ?B (\<lambda>p. False)
      \<lparr>data = \<lparr>snum = 5, pin = 2, pullUp = 0\<rparr>, active = False, signal = 7426375 / 8388608\<rparr> = (
      \<lparr>data = \<lparr>snum = 5, pin = 2, pullUp = 0\<rparr>, active = False, signal = 28139 / 32768\<rparr>, [])"
    by (simp add: ev)
  have k5: "ticks ?B (\<lambda>p. False) 5
      \<lparr>data = \<lparr>snum = 5, pin = 2, pullUp = 0\<rparr>, active = False, signal = 1\<rparr> = (
      \<lparr>data = \<lparr>snum = 5, pin = 2, pullUp = 0\<rparr>, active = False, signal = 28139 / 32768\<rparr>, [])"
    by (rule ticks_step [OF k4 kc5]) simp_all
  have kc6: "check_step ?B (\<lambda>p. False)
      \<lparr>data = \<lparr>snum = 5, pin = 2, pullUp = 0\<rparr>, active = False, signal = 28139 / 32768\<rparr> = (
      \<lparr>data = \<lparr>snum = 5, pin = 2, pullUp = 0\<rparr>, active = False, signal = 13974953 / 16777216\<rparr>, [])"
    by (simp add: ev)
  have k6: "ticks ?B (\<lambda>p. False) 6
      \<lparr>data = \<lparr>snum = 5, pin = 2, pullUp = 0\<rparr>, active = False, signal = 1\<rparr> = (
      \<lparr>data = \<lparr>snum = 5, pin = 2, pullUp = 0\<rparr>, active = False, signal = 13974953 / 16777216\<rparr>, [])"
    by (rule ticks_step [OF k5 kc6]) simp_all
  have kc7: "check_step ?B (\<lambda>p. False)
      \<lparr>data = \<lparr>snum = 5, pin = 2, pullUp = 0\<rparr>, active = False, signal = 13974953 / 16777216\<rparr> = (
      \<lparr>data = \<lparr>snum = 5, pin = 2, pullUp = 0\<rparr>, active = False, signal = 13555705 / 16777216\<rparr>, [])"
    by (simp add: ev)
  have k7: "ticks ?B (\<lambda>p. False) 7
      \<lparr>data = \<lparr>snum = 5, pin = 2, pullUp = 0\<rparr>, active = False, signal = 1\<rparr> = (
      \<lparr>data = \<lparr>snum = 5, pin = 2, pullUp = 0\<rparr>, active = False, signal = 13555705 / 16777216\<rparr>, [])"
    by (rule ticks_step [OF k6 kc7]) simp_all
  have kc8: "check_step ?B (\<lambda>p. False)
      \<lparr>data = \<lparr>snum = 5, pin = 2, pullUp = 0\<rparr>, active = False, signal = 13555705 / 16777216\<rparr> = (
      \<lparr>data = \<lparr>snum = 5, pin = 2, pullUp = 0\<rparr>, active = False, signal = 6574517 / 8388608\<rparr>, [])"
    by (simp add: ev)
  have k8: "ticks ?B (\<lambda>p. False) 8
      \<lparr>data = \<lparr>snum = 5, pin = 2, pullUp = 0\<rparr>, active = False, signal = 1\<rparr> = (
      \<lparr>data = \<lparr>snum = 5, pin = 2, pullUp = 0\<rparr>, active = False, signal = 6574517 / 8388608\<rparr>, [])"
    by (rule ticks_step [OF k7 kc8]) simp_all
  have kc9: "check_step ?B (\<lambda>p. False)
      \<lparr>data = \<lparr>snum = 5, pin = 2, pullUp = 0\<rparr>, active = False, signal = 6574517 / 8388608\<rparr> = (
      \<lparr>data = \<lparr>snum = 5, pin = 2, pullUp = 0\<rparr>, active = False, signal = 12754563 / 16777216\<rparr>, [])"
    by (simp add: ev)
  have k9: "ticks ?B (\<lambda>p. False) 9
      \<lparr>data = \<lparr>snum = 5, pin = 2, pullUp = 0\<rparr>, active = False, signal = 1\<rparr> = (
      \<lparr>data = \<lparr>snum = 5, pin = 2, pullUp = 0\<rparr>, active = False, signal = 12754563 / 16777216\<rparr>, [])"
    by (rule ticks_step [OF k8 kc9]) simp_all
  have kc10: "check_step ?B (\<lambda>p. False)
      \<lparr>data = \<lparr>snum = 5, pin = 2, pullUp = 0\<rparr>, active = False, signal = 12754563 / 16777216\<rparr> = (
      \<lparr>data = \<lparr>snum = 5, pin = 2, pullUp = 0\<rparr>, active = False, signal = 6185963 / 8388608\<rparr>, [])"
    by (simp add: ev)
  have k10: "ticks ?B (\<lambda>p. False) 10
      \<lparr>data = \<lparr>snum = 5, pin = 2, pullUp = 0\<rparr>, active = False, signal = 1\<rparr> = (
      \<lparr>data = \<lparr>snum = 5, pin = 2, pullUp = 0\<rparr>, active = False, signal = 6185963 / 8388608\<rparr>, [])"
    by (rule ticks_step [OF k9 kc10]) simp_all
  have kc11: "check_step ?B (\<lambda>p. False)
      \<lparr>data = \<lparr>snum = 5, pin = 2, pullUp = 0\<rparr>, active = False, signal = 6185963 / 8388608\<rparr> = (
      \<lparr>data = \<lparr>snum = 5, pin = 2, pullUp = 0\<rparr>, active = False, signal = 12000769 / 16777216\<rparr>, [])"
    by (simp add: ev)
  have k11: "ticks ?B (\<lambda>p. False) 11
      \<lparr>data = \<lparr>snum = 5, pin = 2, pullUp = 0\<rparr>, active = False, signal = 1\<rparr> = (
      \<lparr>data = \<lparr>snum = 5, pin = 2, pullUp = 0\<rparr>, active = False, signal = 12000769 / 16777216\<rparr>, [])"
    by (rule ticks_step [OF k10 kc11]) simp_all
  have kc12: "check_step ?B (\<lambda>p. False)
      \<lparr>data = \<lparr>snum = 5, pin = 2, pullUp = 0\<rparr>, active = False, signal = 12000769 / 16777216\<rparr> = (
      \<lparr>data = \<lparr>snum = 5, pin = 2, pullUp = 0\<rparr>, active = False, signal = 5820373 / 8388608\<rparr>, [])"
    by (simp add: ev)
  have k12: "ticks ?B (\<lambda>p. False) 12
      \<lparr>data = \<lparr>snum = 5, pin = 2, pullUp = 0\<rparr>, active = False, signal = 1\<rparr> = (
      \<lparr>data = \<lparr>snum = 5, pin = 2, pullUp = 0\<rparr>, active = False, signal = 5820373 / 8388608\<rparr>, [])"
    by (rule ticks_step [OF k11 kc12]) simp_all
  have kc13: "check_step ?B (\<lambda>p. False)
      \<lparr>data = \<lparr>snum = 5, pin = 2, pullUp = 0\<rparr>, active = False, signal = 5820373 / 8388608\<rparr> = (
      \<lparr>data = \<lparr>snum = 5, pin = 2, pullUp = 0\<rparr>, active = False, signal = 2822881 / 4194304\<rparr>, [])"
    by (simp add: ev)
  have k13: "ticks ?B (\<lambda>p. False) 13
      \<lparr>data = \<lparr>snum = 5, pin = 2, pullUp = 0\<rparr>, active = False, signal = 1\<rparr> = (
      \<lparr>data = \<lparr>snum = 5, pin = 2, pullUp = 0\<rparr>, active = False, signal = 2822881 / 4194304\<rparr>, [])"
    by (rule ticks_step [OF k12 kc13]) simp_all
  have kc14: "check_step ?B (\<lambda>p. False)
      \<lparr>data = \<lparr>snum = 5, pin = 2, pullUp = 0\<rparr>, active = False, signal = 2822881 / 4194304\<rparr> = (
      \<lparr>data = \<lparr>snum = 5, pin = 2, pullUp = 0\<rparr>, active = False, signal = 10952779 / 16777216\<rparr>, [])"
    by (simp add: ev)
  have k14: "ticks ?B (\<lambda>p. False) 14
      \<lparr>data = \<lparr>snum = 5, pin = 2, pullUp = 0\<rparr>, active = False, signal = 1\<rparr> = (
      \<lparr>data = \<lparr>snum = 5, pin = 2, pullUp = 0\<rparr>, active = False, signal = 10952779 / 16777216\<rparr>, [])"
    by (rule ticks_step [OF k13 kc14]) simp_all
  have kc15: "check_step ?B (\<lambda>p. False)
      \<lparr>data = \<lparr>snum = 5, pin = 2, pullUp = 0\<rparr>, active = False, signal = 10952779 / 16777216\<rparr> = (
      \<lparr>data = \<lparr>snum = 5, pin = 2, pullUp = 0\<rparr>, active = False, signal = 2656049 / 4194304\<rparr>, [])"
    by (simp add: ev)
  have k15: "ticks ?B (\<lambda>p. False) 15
      \<lparr>data = \<lparr>snum = 5, pin = 2, pullUp = 0\<rparr>, active = False, signal = 1\<rparr> = (
      \<lparr>data = \<lparr>snum = 5, pin = 2, pullUp = 0\<rparr>, active = False, signal = 2656049 / 4194304\<rparr>, [])"
    by (rule ticks_step [OF k14 kc15]) simp_all
  have kc16: "check_step ?B (\<lambda>p. False)
      \<lparr>data = \<lparr>snum = 5, pin = 2, pullUp = 0\<rparr>, active = False, signal = 2656049 / 4194304\<rparr> = (
      \<lparr>data = \<lparr>snum = 5, pin = 2, pullUp = 0\<rparr>, active = False, signal = 5152735 / 8388608\<rparr>, [])"
    by (simp add: ev)
  have k16: "ticks ?B (\<lambda>p. False) 16
      \<lparr>data = \<lparr>snum = 5, pin = 2, pullUp = 0\<rparr>, active = False, signal = 1\<rparr> = (
      \<lparr>data = \<lparr>snum = 5, pin = 2, pullUp = 0\<rparr>, active = False, signal = 5152735 / 8388608\<rparr>, [])"
    by (rule ticks_step [OF k15 kc16]) simp_all
  have kc17: "check_step ?B (\<lambda>p. False)
      \<lparr>data = \<lparr>snum = 5, pin = 2, pullUp = 0\<rparr>, active = False, signal = 5152735 / 8388608\<rparr> = (
      \<lparr>data = \<lparr>snum = 5, pin = 2, pullUp = 0\<rparr>, active = False, signal = 4998153 / 8388608\<rparr>, [])"
    by (simp add: ev)
  have k17: "ticks ?B (\<lambda>p. False) 17
      \<lparr>data = \<lparr>snum = 5, pin = 2, pullUp = 0\<rparr>, active = False, signal = 1\<rparr> = (
      \<lparr>data = \<lparr>snum = 5, pin = 2, pullUp = 0\<rparr>, active = False, signal = 4998153 / 8388608\<rparr>, [])"
    by (rule ticks_step [OF k16 kc17]) simp_all
  have kc18: "check_step ?B (\<lambda>p. False)
      \<lparr>data = \<lparr>snum = 5, pin = 2, pullUp = 0\<rparr>, active = False, signal = 4998153 / 8388608\<rparr> = (
      \<lparr>data = \<lparr>snum = 5, pin = 2, pullUp = 0\<rparr>, active = False, signal = 9696417 / 16777216\<rparr>, [])"
    by (simp add: ev)
  have k18: "ticks ?B (\<lambda>p. False) 18
      \<lparr>data = \<lparr>snum = 5, pin = 2, pullUp = 0\<rparr>, active = False, signal = 1\<rparr> = (
      \<lparr>data = \<lparr>snum = 5, pin = 2, pullUp = 0\<rparr>, active = False, signal = 9696417 / 16777216\<rparr>, [])"
    by (rule ticks_step [OF k17 kc18]) simp_all
  have kc19: "check_step ?B (\<lambda>p. False)
      \<lparr>data = \<lparr>snum = 5, pin = 2, pullUp = 0\<rparr>, active = False, signal = 9696417 / 16777216\<rparr> = (
      \<lparr>data = \<lparr>snum = 5, pin = 2, pullUp = 0\<rparr>, active = False, signal = 9405525 / 16777216\<rparr>, [])"
    by (simp add: ev)
  have k19: "ticks ?B (\<lambda>p. False) 19
      \<lparr>data = \<lparr>snum = 5, pin = 2, pullUp = 0\<rparr>, active = False, signal = 1\<rparr> = (
      \<lparr>data = \<lparr>snum = 5, pin = 2, pullUp = 0\<rparr>, active = False, signal = 9405525 / 16777216\<rparr>, [])"
    by (rule ticks_step [OF k18 kc19]) simp_all
  have kc20: "check_step ?B (\<lambda>p. False)
      \<lparr>data = \<lparr>snum = 5, pin = 2, pullUp = 0\<rparr>, active = False, signal = 9405525 / 16777216\<rparr> = (
      \<lparr>data = \<lparr>snum = 5, pin = 2, pullUp = 0\<rparr>, active = False, signal = 285105 / 524288\<rparr>, [])"
    by (simp add: ev)
  have k20: "ticks ?B (\<lambda>p. False) 20
      \<lparr>data = \<lparr>snum = 5, pin = 2, pullUp = 0\<rparr>, active = False, signal = 1\<rparr> = (
      \<lparr>data = \<lparr>snum = 5, pin = 2, pullUp = 0\<rparr>, active = False, signal = 285105 / 524288\<rparr>, [])"
    by (rule ticks_step [OF k19 kc20]) simp_all
  have kc21: "check_step ?B (\<lambda>p. False)
      \<lparr>data = \<lparr>snum = 5, pin = 2, pullUp = 0\<rparr>, active = False, signal = 285105 / 524288\<rparr> = (
      \<lparr>data = \<lparr>snum = 5, pin = 2, pullUp = 0\<rparr>, active = False, signal = 8849659 / 16777216\<rparr>, [])"
    by (simp add: ev)
  have k21: "ticks ?B (\<lambda>p. False) 21
      \<lparr>data = \<lparr>snum = 5, pin = 2, pullUp = 0\<rparr>, active = False, signal = 1\<rparr> = (
      \<lparr>data = \<lparr>snum = 5, pin = 2, pullUp = 0\<rparr>, active = False, signal = 8849659 / 16777216\<rparr>, [])"
    by (rule ticks_step [OF k20 kc21]) simp_all
  have kc22: "check_step ?B (\<lambda>p. False)
      \<lparr>data = \<lparr>snum = 5, pin = 2, pullUp = 0\<rparr>, active = False, signal = 8849659 / 16777216\<rparr> = (
      \<lparr>data = \<lparr>snum = 5, pin = 2, pullUp = 0\<rparr>, active = False, signal = 8584169 / 16777216\<rparr>, [])"
    by (simp add: ev)
  have k22: "ticks ?B (\<lambda>p. False) 22
      \<lparr>data = \<lparr>snum = 5, pin = 2, pullUp = 0\<rparr>, active = False, signal = 1\<rparr> = (
      \<lparr>data = \<lparr>snum = 5, pin = 2, pullUp = 0\<rparr>, active = False, signal = 8584169 / 16777216\<rparr>, [])"
    by (rule ticks_step [OF k21 kc22]) simp_all
  have kc23: "check_step ?B (\<lambda>p. False)
      \<lparr>data = \<lparr>snum = 5, pin = 2, pullUp = 0\<rparr>, active = False, signal = 8584169 / 16777216\<rparr> = (
      \<lparr>data = \<lparr>snum = 5, pin = 2, pullUp = 0\<rparr>, active = True, signal = 2081661 / 4194304\<rparr>, ''<Q5>'')"
    by (simp add: ev)
  have k23: "ticks ?B (\<lambda>p. False) 23
      \<lparr>data = \<lparr>snum = 5, pin = 2, pullUp = 0\<rparr>, active = False, signal = 1\<rparr> = (
      \<lparr>data = \<lparr>snum = 5, pin = 2, pullUp = 0\<rparr>, active = True, signal = 2081661 / 4194304\<rparr>, ''<Q5>'')"
    by (rule ticks_step [OF k22 kc23]) simp_all
  have kc24: "check_step ?B (\<lambda>p. False)
      \<lparr>data = \<lparr>snum = 5, pin = 2, pullUp = 0\<rparr>, active = True, signal = 2081661 / 4194304\<rparr> = (
      \<lparr>data = \<lparr>snum = 5, pin = 2, pullUp = 0\<rparr>, active = True, signal = 8076845 / 16777216\<rparr>, [])"
    by (simp add: ev)
  have k24: "ticks ?B (\<lambda>p. False) 24
      \<lparr>data = \<lparr>snum = 5, pin = 2, pullUp = 0\<rparr>, active = False, signal = 1\<rparr> = (
      \<lparr>data = \<lparr>snum = 5, pin = 2, pullUp = 0\<rparr>, active = True, signal = 8076845 / 16777216\<rparr>, ''<Q5>'')"
    by (rule ticks_step [OF k23 kc24]) simp_all
  from high k22 k23 k24 show ?thesis by simp
qed

text \<open>
  In arithmetic without rounding, with \<open>0 < SENSOR_DECAY < 1\<close>, a high pin leaves
  \<open>signal\<close> at 1, and under a low pin \<open>signal\<close> after \<open>k\<close> ticks is
  \<open>(1 - SENSOR_DECAY) ^ k\<close>: it tends to 0 and there is a first tick that brings it below
  0.5, after which it never rises above 0.99.
\<close>

lemma exact_constant_input:
  assumes "0 < d" and "d < 1" and "signal tt = 1"
  shows "(pins (pin (data tt)) \<longrightarrow> filtered (exact d) pins tt = 1) \<and>
         (\<not> pins (pin (data tt)) \<longrightarrow>
            (\<forall>k. signal (fst (ticks (exact d) pins k tt)) = (1 - d) ^ k) \<and>
            (\<lambda>k. signal (fst (ticks (exact d) pins k tt))) \<longlonglongrightarrow> 0 \<and>
            (\<exists>m. (\<forall>k < m. \<not> signal (fst (ticks (exact d) pins k tt)) < 1 / 2) \<and>
                 signal (fst (ticks (exact d) pins m tt)) < 1 / 2 \<and>
                 (\<forall>k \<ge> m. \<not> lit_0_99 (exact d) < signal (fst (ticks (exact d) pins k tt)))))"
proof (intro conjI impI)
  assume "pins (pin (data tt))"
  with assms(3) show "filtered (exact d) pins tt = 1"
    by (simp add: filtered_def exact_def digitalRead_def algebra_simps)
next
  assume low: "\<not> pins (pin (data tt))"
  let ?q = "1 - d"
  have sig: "signal (fst (ticks (exact d) pins k tt)) = ?q ^ k" for k
  proof (induction k)
    case 0
    from assms(3) show ?case by simp
  next
    case (Suc k)
    from low have "\<not> pins (pin (data (fst (ticks (exact d) pins k tt))))"
      by (simp add: ticks_data)
    with Suc show ?case
      unfolding ticks_Suc_signal by (simp add: filtered_def exact_def digitalRead_def)
  qed
  then show "\<forall>k. signal (fst (ticks (exact d) pins k tt)) = ?q ^ k"
    by simp
  from assms(1,2) have q: "0 \<le> ?q" "?q < 1" "?q \<le> 1" by simp_all
  have "(\<lambda>k. ?q ^ k) \<longlonglongrightarrow> 0"
    using q(1,2) by (rule LIMSEQ_realpow_zero)
  then show "(\<lambda>k. signal (fst (ticks (exact d) pins k tt))) \<longlonglongrightarrow> 0"
    by (simp add: sig)
  from real_arch_pow_inv [of "1 / 2" ?q] q(2) obtain n where n: "?q ^ n < 1 / 2"
    by auto
  define m where "m = (LEAST n. ?q ^ n < 1 / 2)"
  from n have at: "?q ^ m < 1 / 2"
    unfolding m_def by (rule LeastI)
  have first: "\<forall>k < m. \<not> ?q ^ k < 1 / 2"
  proof (intro allI impI)
    fix k assume "k < m"
    then show "\<not> ?q ^ k < 1 / 2"
      unfolding m_def by (rule not_less_Least)
  qed
  have later: "\<forall>k \<ge> m. \<not> 99 / 100 < ?q ^ k"
  proof (intro allI impI)
    fix k assume "m \<le> k"
    then have "?q ^ k \<le> ?q ^ m"
      using q(1,3) by (rule power_decreasing)
    with at show "\<not> 99 / 100 < ?q ^ k" by simp
  qed
  have "lit_0_99 (exact d) = 99 / 100"
    by (simp add: exact_def)
  with first at later
  show "\<exists>m. (\<forall>k < m. \<not> signal (fst (ticks (exact d) pins k tt)) < 1 / 2) \<and>
      signal (fst (ticks (exact d) pins m tt)) < 1 / 2 \<and>
      (\<forall>k \<ge> m. \<not> lit_0_99 (exact d) < signal (fst (ticks (exact d) pins k tt)))"
    unfolding sig by metis
qed

end
